theory Spec2Isabelle
  imports Main "HOL-Library.AList"
begin

section \<open>Python values and dictionaries\<close>

text \<open>
  A device is a Python dict loaded from JSON. Its values are modelled as the JSON
  values a device file holds: null, booleans, integers, strings and lists of strings
  (floats, nested lists and nested objects are not modelled). Strings are byte
  strings in UTF-8; the Chinese literals of the source are written out as bytes.
\<close>

datatype pyval = PNone | PBool bool | PInt int | PStr string | PList "string list"

text \<open>Python truthiness, as \<open>if v:\<close> and \<open>a and b\<close> test it.\<close>

fun truthy :: "pyval \<Rightarrow> bool" where
  "truthy PNone = False"
| "truthy (PBool b) = b"
| "truthy (PInt i) = (i \<noteq> 0)"
| "truthy (PStr s) = (s \<noteq> [])"
| "truthy (PList xs) = (xs \<noteq> [])"

text \<open>
  A dict is an association list: \<open>map_of\<close> is the lookup, \<open>AList.update\<close> is
  \<open>d[k] = v\<close> (the key keeps its place, a new key goes to the end) and
  \<open>AList.delete\<close> is \<open>d.pop(k, None)\<close>.
\<close>

type_synonym pydict = "(string \<times> pyval) list"

definition dict_get :: "pydict \<Rightarrow> string \<Rightarrow> pyval" where
  \<comment> \<open>\<open>d.get(k)\<close>: the value, or None when the key is absent\<close>
  "dict_get d k = (case map_of d k of Some v \<Rightarrow> v | None \<Rightarrow> PNone)"

section \<open>The store of dict objects\<close>

text \<open>
  Dicts are mutable objects that variables refer to. The store maps an address to
  the dict held there; \<open>dict_copy\<close> is \<open>d.copy()\<close>: it allocates a new object
  with the same items. An address that holds no object reads as the empty dict
  (Python has no dangling references; the theorems ask for live addresses where
  it matters).
\<close>

type_synonym addr = nat

type_synonym heap = "(addr \<times> pydict) list"

definition deref :: "heap \<Rightarrow> addr \<Rightarrow> pydict" where
  "deref h a = (case map_of h a of Some d \<Rightarrow> d | None \<Rightarrow> [])"

definition fresh :: "heap \<Rightarrow> addr" where
  "fresh h = Suc (fold max (map fst h) 0)"

definition dict_copy :: "heap \<Rightarrow> addr \<Rightarrow> addr \<times> heap" where
  "dict_copy h a = (let c = fresh h in (c, AList.update c (deref h a) h))"

definition dict_pop :: "heap \<Rightarrow> addr \<Rightarrow> string \<Rightarrow> heap" where
  \<comment> \<open>\<open>d.pop(k, None)\<close>, the popped value dropped\<close>
  "dict_pop h a k = AList.update a (AList.delete k (deref h a)) h"

definition dict_setitem :: "heap \<Rightarrow> addr \<Rightarrow> string \<Rightarrow> pyval \<Rightarrow> heap" where
  \<comment> \<open>\<open>d[k] = v\<close>\<close>
  "dict_setitem h a k v = AList.update a (AList.update k v (deref h a)) h"

section \<open>The session provider\<close>

text \<open>
  Netmiko is outside the repository. An exception is one of the two Netmiko classes
  the source names, or any other \<open>Exception\<close>; each carries the text \<open>str(e)\<close>.
  Every call to the provider is recorded in a trace, and the provider's answer to a
  call may depend on everything that happened before it.
\<close>

datatype exn =
    NetMikoAuthenticationException string
  | NetMikoTimeoutException string
  | OtherException string

fun str_exn :: "exn \<Rightarrow> string" where
  "str_exn (NetMikoAuthenticationException m) = m"
| "str_exn (NetMikoTimeoutException m) = m"
| "str_exn (OtherException m) = m"

type_synonym conn = nat

datatype event =
    Connect pydict
  | FindPrompt conn
  | SendCommandTiming conn string
  | Disconnect conn

record netmiko =
  ConnectHandler :: "event list \<Rightarrow> pydict \<Rightarrow> exn + conn"
  find_prompt :: "event list \<Rightarrow> conn \<Rightarrow> exn + string"
  send_command_timing :: "event list \<Rightarrow> conn \<Rightarrow> string \<Rightarrow> exn + string"

section \<open>String literals of the source\<close>

definition primary_label :: string where
  \<comment> \<open>"primary password"\<close>
  "primary_label = [CHR 0xE4, CHR 0xB8, CHR 0xBB, CHR 0xE5, CHR 0xAF, CHR 0x86, CHR 0xE7,
     CHR 0xA0, CHR 0x81]"

definition backup_label :: string where
  \<comment> \<open>"backup password"\<close>
  "backup_label = [CHR 0xE5, CHR 0xA4, CHR 0x87, CHR 0xE7, CHR 0x94, CHR 0xA8, CHR 0xE5,
     CHR 0xAF, CHR 0x86, CHR 0xE7, CHR 0xA0, CHR 0x81]"

definition timeout_text :: string where
  \<comment> \<open>"connection timed out"\<close>
  "timeout_text = [CHR 0xE8, CHR 0xBF, CHR 0x9E, CHR 0xE6, CHR 0x8E, CHR 0xA5, CHR 0xE8,
     CHR 0xB6, CHR 0x85, CHR 0xE6, CHR 0x97, CHR 0xB6]"

definition error_prefix :: string where
  \<comment> \<open>"an error occurred: "\<close>
  "error_prefix = [CHR 0xE5, CHR 0x8F, CHR 0x91, CHR 0xE7, CHR 0x94, CHR 0x9F, CHR 0xE9,
     CHR 0x94, CHR 0x99, CHR 0xE8, CHR 0xAF, CHR 0xAF, CHR 0x3A, CHR 0x20]"

definition auth_exhausted_text :: string where
  \<comment> \<open>"authentication failed: all password attempts failed"\<close>
  "auth_exhausted_text = [CHR 0xE8, CHR 0xAE, CHR 0xA4, CHR 0xE8, CHR 0xAF, CHR 0x81,
     CHR 0xE5, CHR 0xA4, CHR 0xB1, CHR 0xE8, CHR 0xB4, CHR 0xA5, CHR 0xEF, CHR 0xBC, CHR 0x9A,
     CHR 0xE6, CHR 0x89, CHR 0x80, CHR 0xE6, CHR 0x9C, CHR 0x89, CHR 0xE5, CHR 0xAF, CHR 0x86,
     CHR 0xE7, CHR 0xA0, CHR 0x81, CHR 0xE5, CHR 0xB0, CHR 0x9D, CHR 0xE8, CHR 0xAF, CHR 0x95,
     CHR 0xE5, CHR 0x9D, CHR 0x87, CHR 0xE5, CHR 0xA4, CHR 0xB1, CHR 0xE8, CHR 0xB4, CHR 0xA5]"

definition exec_error_prefix :: string where
  \<comment> \<open>"an error occurred while executing commands: "\<close>
  "exec_error_prefix = [CHR 0xE6, CHR 0x89, CHR 0xA7, CHR 0xE8, CHR 0xA1, CHR 0x8C, CHR 0xE5,
     CHR 0x91, CHR 0xBD, CHR 0xE4, CHR 0xBB, CHR 0xA4, CHR 0xE6, CHR 0x97, CHR 0xB6, CHR 0xE5,
     CHR 0x8F, CHR 0x91, CHR 0xE7, CHR 0x94, CHR 0x9F, CHR 0xE9, CHR 0x94, CHR 0x99, CHR 0xE8,
     CHR 0xAF, CHR 0xAF, CHR 0x3A, CHR 0x20]"

definition command_label :: "string \<Rightarrow> string" where
  \<comment> \<open>the f-string that opens the entry of a command\<close>
  "command_label cmd = CHR 0x0A # ''--- Command: '' @ cmd @ '' ---'' @ [CHR 0x0A]"

definition command_failed :: "string \<Rightarrow> exn \<Rightarrow> string" where
  \<comment> \<open>"command 'cmd' failed: " then \<open>str(e)\<close> and a newline\<close>
  "command_failed cmd e =
     [CHR 0xE5, CHR 0x91, CHR 0xBD, CHR 0xE4, CHR 0xBB, CHR 0xA4, CHR 0x20, CHR 0x27] @ cmd @
     [CHR 0x27, CHR 0x20, CHR 0xE6, CHR 0x89, CHR 0xA7, CHR 0xE8, CHR 0xA1, CHR 0x8C, CHR 0xE5,
      CHR 0xA4, CHR 0xB1, CHR 0xE8, CHR 0xB4, CHR 0xA5, CHR 0x3A, CHR 0x20] @ str_exn e @
     [CHR 0x0A]"

section \<open>Command resolution\<close>

definition commands_map :: "(string \<times> string list) list" where
  "commands_map =
    [(''cisco_ios'', [''show version'', ''show ip interface brief'', ''show vlan brief'',
        ''show spanning-tree summary'', ''show arp'', ''show processes cpu'',
        ''show memory statistics'']),
     (''cisco_xe'', [''show version'', ''show ip interface brief'', ''show vlan brief'',
        ''show spanning-tree summary'', ''show arp'', ''show processes cpu'',
        ''show memory statistics'']),
     (''cisco_nxos'', [''show version'', ''show interface brief'', ''show vlan brief'',
        ''show spanning-tree detail'', ''show ip arp'', ''show processes cpu'',
        ''show processes memory'']),
     (''huawei'', [''display version'', ''display ip interface brief'', ''display vlan'',
        ''display stp brief'', ''display arp'', ''display cpu-usage'',
        ''display memory-usage'']),
     (''h3c'', [''display version'', ''display ip interface brief'', ''display vlan'',
        ''display stp brief'', ''display arp'', ''display cpu-usage'', ''display memory'']),
     (''juniper'', [''show version'', ''show interfaces terse'', ''show vlans'',
        ''show spanning-tree bridge'', ''show arp'', ''show chassis alarms'',
        ''show system processes summary''])]"

text \<open>
  Looking a value up in a dict hashes it first: a list is unhashable and raises
  TypeError. The keys of both command tables are strings, so only a string can
  be found.
\<close>

definition unhashable_list :: exn where
  "unhashable_list = OtherException (''unhashable type: '' @ [CHR 0x27] @ ''list'' @ [CHR 0x27])"

fun key_lookup :: "('v \<Rightarrow> 'w) \<Rightarrow> (string \<times> 'v) list \<Rightarrow> pyval \<Rightarrow> exn + 'w option" where
  \<comment> \<open>\<open>Some\<close> the value under the key, \<open>None\<close> when the key is absent\<close>
  "key_lookup f d (PList xs) = Inl unhashable_list"
| "key_lookup f d (PStr s) = Inr (map_option f (map_of d s))"
| "key_lookup f d v = Inr None"

definition get_inspection_commands :: "pydict \<Rightarrow> pydict \<Rightarrow> exn + pyval" where
  "get_inspection_commands self_commands device =
    (if (case map_of device ''commands'' of Some v \<Rightarrow> truthy v | None \<Rightarrow> False)
     then Inr (dict_get device ''commands'')
     else
       let device_type = dict_get device ''device_type'' in
       case (if self_commands \<noteq> [] then key_lookup id self_commands device_type
             else Inr None) of
         Inl e \<Rightarrow> Inl e
       | Inr (Some cmds) \<Rightarrow> Inr cmds
       | Inr None \<Rightarrow>
           (case key_lookup PList commands_map device_type of
              Inl e \<Rightarrow> Inl e
            | Inr (Some cmds) \<Rightarrow> Inr cmds
            | Inr None \<Rightarrow> Inr (PList [''show version''])))"

section \<open>Inspecting one device\<close>

record result =
  hostname :: pyval
  ip_address :: pyval
  device_type :: pyval
  status :: string
  "output" :: string
  password_used :: "string option"

text \<open>
  The loop over the candidate passwords. It carries the local variables
  \<open>connection\<close> and \<open>password_used\<close>; the first component of its value is
  \<open>Some r\<close> when the function returned \<open>r\<close> from inside the loop, and \<open>None\<close>
  when the loop ended (by \<open>break\<close> or at the end of the list). The progress
  messages it prints are not modelled.
\<close>

fun try_passwords ::
  "netmiko \<Rightarrow> addr \<Rightarrow> result \<Rightarrow> nat \<Rightarrow> pyval list \<Rightarrow> conn option \<Rightarrow> string option \<Rightarrow>
   heap \<Rightarrow> event list \<Rightarrow> result option \<times> conn option \<times> string option \<times> heap \<times> event list"
where
  "try_passwords nm device_config res i [] connection pw_used h tr =
     (None, connection, pw_used, h, tr)"
| "try_passwords nm device_config res i (password # rest) connection pw_used h tr =
     (let h' = dict_setitem h device_config ''password'' password;
          password_type = (if i = 0 then primary_label else backup_label);
          kwargs = deref h' device_config;
          tr' = tr @ [Connect kwargs]
      in case ConnectHandler nm tr kwargs of
           Inr c \<Rightarrow> (None, Some c, Some password_type, h', tr')
         | Inl (NetMikoAuthenticationException m) \<Rightarrow>
             try_passwords nm device_config res (Suc i) rest connection pw_used h' tr'
         | Inl (NetMikoTimeoutException m) \<Rightarrow>
             (Some (res\<lparr>output := timeout_text, password_used := pw_used\<rparr>),
              connection, pw_used, h', tr')
         | Inl (OtherException m) \<Rightarrow>
             (Some (res\<lparr>output := error_prefix @ m, password_used := pw_used\<rparr>),
              connection, pw_used, h', tr'))"

text \<open>
  \<open>for cmd in commands\<close>: a list gives its elements, a string its characters;
  None, a boolean or an integer is not iterable and raises TypeError. A string is
  held as its UTF-8 bytes, so its characters are the groups of a leading byte and
  the continuation bytes that follow it.
\<close>

definition not_iterable :: "string \<Rightarrow> exn" where
  "not_iterable ty = OtherException ([CHR 0x27] @ ty @ [CHR 0x27] @ '' object is not iterable'')"

definition is_continuation :: "char \<Rightarrow> bool" where
  \<comment> \<open>a UTF-8 continuation byte, \<open>10xxxxxx\<close>\<close>
  "is_continuation c = (128 \<le> (of_char c :: nat) \<and> (of_char c :: nat) < 192)"

function utf8_chars :: "string \<Rightarrow> string list" where
  "utf8_chars [] = []"
| "utf8_chars (c # cs) =
     (c # takeWhile is_continuation cs) # utf8_chars (dropWhile is_continuation cs)"
  by pat_completeness auto
termination
  by (relation "measure length") (auto simp: less_Suc_eq_le length_dropWhile_le)

fun py_iter :: "pyval \<Rightarrow> exn + string list" where
  "py_iter (PList xs) = Inr xs"
| "py_iter (PStr s) = Inr (utf8_chars s)"
| "py_iter PNone = Inl (not_iterable ''NoneType'')"
| "py_iter (PBool b) = Inl (not_iterable ''bool'')"
| "py_iter (PInt i) = Inl (not_iterable ''int'')"

text \<open>
  The loop over the commands. \<open>send_command_timing\<close> returns a string, so
  \<open>cmd_output or ''\<close> is that string; an exception of one command is written into
  the output and the loop goes on.
\<close>

fun run_commands ::
  "netmiko \<Rightarrow> conn \<Rightarrow> string list \<Rightarrow> string \<Rightarrow> event list \<Rightarrow> string \<times> event list" where
  "run_commands nm c [] out tr = (out, tr)"
| "run_commands nm c (cmd # cmds) out tr =
     (let out1 = out @ command_label cmd;
          tr' = tr @ [SendCommandTiming c cmd]
      in case send_command_timing nm tr c cmd of
           Inr cmd_output \<Rightarrow> run_commands nm c cmds (out1 @ cmd_output) tr'
         | Inl e \<Rightarrow> run_commands nm c cmds (out1 @ command_failed cmd e) tr')"

definition rstrip :: "string \<Rightarrow> string \<Rightarrow> string" where
  \<comment> \<open>\<open>s.rstrip(chars)\<close>\<close>
  "rstrip s chars = rev (dropWhile (\<lambda>c. c \<in> set chars) (rev s))"

text \<open>The body of the \<open>try\<close> block that runs once a connection exists.\<close>

definition execute ::
  "netmiko \<Rightarrow> pydict \<Rightarrow> conn \<Rightarrow> string option \<Rightarrow> result \<Rightarrow> pydict \<Rightarrow> event list \<Rightarrow>
   result \<times> event list" where
  "execute nm self_commands c pw_used res device tr =
    (let tr1 = tr @ [FindPrompt c] in
     case find_prompt nm tr c of
       Inl e \<Rightarrow>
         (res\<lparr>output := exec_error_prefix @ str_exn e, password_used := pw_used\<rparr>, tr1)
     | Inr prompt \<Rightarrow>
         (let res1 = res\<lparr>hostname := PStr (rstrip prompt ''#>$ ''),
                         password_used := pw_used\<rparr>
          in (case get_inspection_commands self_commands device of
                Inl e \<Rightarrow>
                  (res1\<lparr>output := exec_error_prefix @ str_exn e,
                        password_used := pw_used\<rparr>, tr1)
              | Inr commands \<Rightarrow>
                  (case py_iter commands of
                     Inl e \<Rightarrow>
                       (res1\<lparr>output := exec_error_prefix @ str_exn e,
                             password_used := pw_used\<rparr>, tr1)
                   | Inr cmds \<Rightarrow>
                       (let (out, tr2) = run_commands nm c cmds [] tr1
                        in (res1\<lparr>status := ''success'', output := out\<rparr>, tr2))))))"

text \<open>
  The list \<open>passwords\<close>: the device's \<open>password\<close>, then its
  \<open>backup_password\<close> when that key is present with a truthy value.
\<close>

definition candidate_passwords :: "pydict \<Rightarrow> pyval list" where
  "candidate_passwords device =
     [dict_get device ''password''] @
     (case map_of device ''backup_password'' of
        Some v \<Rightarrow> if truthy v then [v] else []
      | None \<Rightarrow> [])"

text \<open>
  \<open>inspect_device\<close> takes the address of the device's dict. The copy
  \<open>device_config\<close> is a new object; the two \<open>pop\<close> calls and the assignment of
  the password act on it. The \<open>finally\<close> clause calls \<open>disconnect\<close> and swallows
  whatever that raises, so the model records the call only.
\<close>

definition inspect_device ::
  "netmiko \<Rightarrow> pydict \<Rightarrow> addr \<Rightarrow> heap \<Rightarrow> event list \<Rightarrow> result \<times> heap \<times> event list" where
  "inspect_device nm self_commands device h tr =
    (let res = \<lparr>hostname = dict_get (deref h device) ''host'',
                ip_address = dict_get (deref h device) ''host'',
                device_type = dict_get (deref h device) ''device_type'',
                status = ''failed'', output = '''', password_used = None\<rparr>;
         (device_config, h1) = dict_copy h device;
         passwords = candidate_passwords (deref h1 device);
         h2 = dict_pop h1 device_config ''backup_password'';
         h3 = dict_pop h2 device_config ''commands''
     in case try_passwords nm device_config res 0 passwords None None h3 tr of
          (Some r, connection, pw_used, h4, tr4) \<Rightarrow> (r, h4, tr4)
        | (None, None, pw_used, h4, tr4) \<Rightarrow>
            (res\<lparr>output := auth_exhausted_text, password_used := pw_used\<rparr>, h4, tr4)
        | (None, Some c, pw_used, h4, tr4) \<Rightarrow>
            (let (r, tr5) = execute nm self_commands c pw_used res (deref h4 device) tr4
             in (r, h4, tr5 @ [Disconnect c])))"

section \<open>Inspecting all devices\<close>

text \<open>
  \<open>self.devices\<close> is the list of the addresses of the device dicts and
  \<open>self.commands\<close> the external command sets. The loop appends one result per
  device; the two progress messages it prints are not modelled.
\<close>

fun run_inspection_loop ::
  "netmiko \<Rightarrow> pydict \<Rightarrow> addr list \<Rightarrow> result list \<Rightarrow> heap \<Rightarrow> event list \<Rightarrow>
   result list \<times> heap \<times> event list" where
  "run_inspection_loop nm self_commands [] results h tr = (results, h, tr)"
| "run_inspection_loop nm self_commands (device # rest) results h tr =
     (let (r, h', tr') = inspect_device nm self_commands device h tr
      in run_inspection_loop nm self_commands rest (results @ [r]) h' tr')"

definition run_inspection ::
  "netmiko \<Rightarrow> pydict \<Rightarrow> addr list \<Rightarrow> heap \<Rightarrow> event list \<Rightarrow>
   result list \<times> heap \<times> event list" where
  "run_inspection nm self_commands self_devices h tr =
     run_inspection_loop nm self_commands self_devices [] h tr"

section \<open>Observations used in the statements\<close>

text \<open>
  The keyword arguments of the attempts that \<open>inspect_device\<close> can make, in order:
  the device's items without \<open>backup_password\<close> and \<open>commands\<close>, with
  \<open>password\<close> set to the candidate. \<open>all_rejected\<close> says that the provider
  answers every attempt of a list, made in order from a given history, with an
  authentication failure. \<open>opened_sessions\<close> and \<open>closed_sessions\<close> read off a
  trace the sessions the provider handed out and the sessions that were closed;
  \<open>reported_prompt\<close> is the prompt the provider gave to the first \<open>find_prompt\<close>.
\<close>

definition attempt_config :: "pydict \<Rightarrow> pyval \<Rightarrow> pydict" where
  "attempt_config base password = AList.update ''password'' password base"

definition candidate_configs :: "pydict \<Rightarrow> pydict list" where
  "candidate_configs device =
     map (attempt_config (AList.delete ''commands'' (AList.delete ''backup_password'' device)))
       (candidate_passwords device)"

fun all_rejected :: "netmiko \<Rightarrow> event list \<Rightarrow> pydict list \<Rightarrow> bool" where
  "all_rejected nm tr [] = True"
| "all_rejected nm tr (cfg # cfgs) =
     (case ConnectHandler nm tr cfg of
        Inl (NetMikoAuthenticationException m) \<Rightarrow> all_rejected nm (tr @ [Connect cfg]) cfgs
      | _ \<Rightarrow> False)"


fun opened_sessions :: "netmiko \<Rightarrow> event list \<Rightarrow> event list \<Rightarrow> conn list" where
  "opened_sessions nm tr [] = []"
| "opened_sessions nm tr (Connect cfg # es) =
     (case ConnectHandler nm tr cfg of Inr c \<Rightarrow> [c] | Inl e \<Rightarrow> []) @
     opened_sessions nm (tr @ [Connect cfg]) es"
| "opened_sessions nm tr (e # es) = opened_sessions nm (tr @ [e]) es"

fun closed_sessions :: "event list \<Rightarrow> conn list" where
  "closed_sessions [] = []"
| "closed_sessions (Disconnect c # es) = c # closed_sessions es"
| "closed_sessions (e # es) = closed_sessions es"

fun command_entries :: "netmiko \<Rightarrow> conn \<Rightarrow> event list \<Rightarrow> string list \<Rightarrow> string list" where
  "command_entries nm c tr [] = []"
| "command_entries nm c tr (cmd # cmds) =
     (command_label cmd @
        (case send_command_timing nm tr c cmd of
           Inr cmd_output \<Rightarrow> cmd_output
         | Inl e \<Rightarrow> command_failed cmd e)) #
     command_entries nm c (tr @ [SendCommandTiming c cmd]) cmds"

definition resolved_commands :: "pydict \<Rightarrow> pydict \<Rightarrow> exn + string list" where
  "resolved_commands self_commands device =
     (case get_inspection_commands self_commands device of
        Inl e \<Rightarrow> Inl e
      | Inr commands \<Rightarrow> py_iter commands)"

fun reported_prompt :: "netmiko \<Rightarrow> event list \<Rightarrow> event list \<Rightarrow> string option" where
  "reported_prompt nm tr [] = None"
| "reported_prompt nm tr (FindPrompt c # es) =
     (case find_prompt nm tr c of Inr prompt \<Rightarrow> Some prompt | Inl e \<Rightarrow> None)"
| "reported_prompt nm tr (e # es) = reported_prompt nm (tr @ [e]) es"

definition initial_result :: "pydict \<Rightarrow> result" where
  "initial_result device =
     \<lparr>hostname = dict_get device ''host'', ip_address = dict_get device ''host'',
      device_type = dict_get device ''device_type'', status = ''failed'', output = [],
      password_used = None\<rparr>"

definition prepared_heap :: "heap \<Rightarrow> addr \<Rightarrow> heap" where
  "prepared_heap h device =
     dict_pop (dict_pop (snd (dict_copy h device)) (fresh h) ''backup_password'') (fresh h)
       ''commands''"

definition primary_config :: "pydict \<Rightarrow> pydict" where
  "primary_config device =
     attempt_config (AList.delete ''commands'' (AList.delete ''backup_password'' device))
       (dict_get device ''password'')"

fun connect_attempts :: "event list \<Rightarrow> pydict list" where
  "connect_attempts [] = []"
| "connect_attempts (Connect cfg # es) = cfg # connect_attempts es"
| "connect_attempts (e # es) = connect_attempts es"

definition device_events :: "netmiko \<Rightarrow> pydict \<Rightarrow> addr \<Rightarrow> heap \<Rightarrow> event list \<Rightarrow> event list" where
  "device_events nm self_commands device h tr =
     drop (length tr) (snd (snd (inspect_device nm self_commands device h tr)))"

text \<open>
  The precedence of the specification, written out from its words: the device's own
  command list when it is present and not empty, else the external command set under
  the device's platform, else the built-in set for the platform, else the single
  command \<open>show version\<close>.
\<close>

definition has_override :: "pydict \<Rightarrow> bool" where
  "has_override device =
     (case map_of device ''commands'' of Some v \<Rightarrow> truthy v | None \<Rightarrow> False)"

definition platform_key :: "pydict \<Rightarrow> string option" where
  "platform_key device =
     (case dict_get device ''device_type'' of PStr p \<Rightarrow> Some p | _ \<Rightarrow> None)"

definition spec_resolve :: "pydict \<Rightarrow> pydict \<Rightarrow> pyval" where
  "spec_resolve external device =
     (if has_override device then dict_get device ''commands''
      else case Option.bind (platform_key device) (map_of external) of
             Some cmds \<Rightarrow> cmds
           | None \<Rightarrow>
               (case Option.bind (platform_key device) (map_of commands_map) of
                  Some cmds \<Rightarrow> PList cmds
                | None \<Rightarrow> PList [''show version'']))"

text \<open>Concrete devices, stores and providers at which the theorems are instantiated.\<close>

definition example_device :: pydict where
  "example_device =
     [(''device_type'', PStr ''vendorA''), (''host'', PStr ''10.0.0.1''),
      (''password'', PStr ''p1''), (''commands'', PList [''show version''])]"

definition backup_device :: pydict where
  "backup_device =
     [(''device_type'', PStr ''cisco_ios''), (''host'', PStr ''10.0.0.2''),
      (''password'', PStr ''p1''), (''backup_password'', PStr ''p2''),
      (''commands'', PList [''show version'', ''show arp''])]"

definition example_heap :: heap where
  "example_heap = [(1, example_device), (2, backup_device)]"

definition accepting_provider :: netmiko where
  "accepting_provider =
     \<lparr>ConnectHandler = (\<lambda>tr kwargs. Inr 7),
      find_prompt = (\<lambda>tr c. Inr ''sw1# ''),
      send_command_timing = (\<lambda>tr c cmd.
        if cmd = ''show version'' then Inl (OtherException ''pattern not detected'')
        else Inr ''Version 1.0'')\<rparr>"

definition rejecting_provider :: netmiko where
  "rejecting_provider =
     \<lparr>ConnectHandler = (\<lambda>tr kwargs. Inl (NetMikoAuthenticationException ''denied'')),
      find_prompt = (\<lambda>tr c. Inr ''sw1# ''),
      send_command_timing = (\<lambda>tr c cmd. Inr ''Version 1.0'')\<rparr>"

definition timeout_provider :: netmiko where
  "timeout_provider =
     \<lparr>ConnectHandler = (\<lambda>tr kwargs. Inl (NetMikoTimeoutException ''timed out'')),
      find_prompt = (\<lambda>tr c. Inr ''sw1# ''),
      send_command_timing = (\<lambda>tr c cmd. Inr ''Version 1.0'')\<rparr>"

text \<open>
  The rank C5 speaks of, from its words: the label of the last candidate attempted in
  the events of an inspection, or None when no candidate was attempted.
\<close>

definition last_attempted_rank :: "event list \<Rightarrow> string option" where
  "last_attempted_rank es =
     (case connect_attempts es of
        [] \<Rightarrow> None
      | [primary] \<Rightarrow> Some primary_label
      | primary # secondary # others \<Rightarrow> Some backup_label)"

definition override_device :: pydict where
  "override_device =
     [(''device_type'', PStr ''cisco_ios''), (''host'', PStr ''10.0.0.3''),
      (''password'', PStr ''p1''), (''commands'', PList [''cmdA''])]"

definition external_commands :: pydict where
  "external_commands = [(''cisco_ios'', PList [''cmdB''])]"

section \<open>Lemmas about the store\<close>

lemma fold_max_ge: "(a::nat) \<le> fold max xs a"
  by (induction xs arbitrary: a) (auto intro: order_trans [OF max.cobounded2])

lemma fold_max_mem: "x \<in> set xs \<Longrightarrow> (x::nat) \<le> fold max xs a"
proof (induction xs arbitrary: a)
  case Nil
  then show ?case by simp
next
  case (Cons y ys)
  show ?case
  proof (cases "x = y")
    case True
    have "y \<le> max y a" by simp
    also have "\<dots> \<le> fold max ys (max y a)" by (rule fold_max_ge)
    finally show ?thesis using True by simp
  next
    case False
    with Cons show ?thesis by simp
  qed
qed

lemma fresh_not_live: "map_of h (fresh h) = None"
proof (rule ccontr)
  assume "map_of h (fresh h) \<noteq> None"
  then have "fresh h \<in> set (map fst h)"
    by (metis map_of_eq_None_iff set_map)
  then have "fresh h \<le> fold max (map fst h) 0" by (rule fold_max_mem)
  then show False by (simp add: fresh_def)
qed

lemma live_not_fresh: "map_of h a = Some d \<Longrightarrow> a \<noteq> fresh h"
  using fresh_not_live [of h] by auto

lemma map_of_dict_copy: "a \<noteq> fresh h \<Longrightarrow> map_of (snd (dict_copy h d)) a = map_of h a"
  by (simp add: dict_copy_def Let_def update_conv')

lemma deref_dict_copy: "deref (snd (dict_copy h d)) (fst (dict_copy h d)) = deref h d"
  by (simp add: dict_copy_def Let_def deref_def update_conv')

lemma fst_dict_copy: "fst (dict_copy h d) = fresh h"
  by (simp add: dict_copy_def Let_def)

lemma map_of_dict_pop: "a \<noteq> c \<Longrightarrow> map_of (dict_pop h c k) a = map_of h a"
  by (simp add: dict_pop_def update_conv')

lemma deref_dict_pop: "deref (dict_pop h c k) c = AList.delete k (deref h c)"
  by (simp add: dict_pop_def deref_def update_conv')

lemma map_of_dict_setitem: "a \<noteq> c \<Longrightarrow> map_of (dict_setitem h c k v) a = map_of h a"
  by (simp add: dict_setitem_def update_conv')

lemma deref_dict_setitem: "deref (dict_setitem h c k v) c = AList.update k v (deref h c)"
  by (simp add: dict_setitem_def deref_def update_conv')

section \<open>Lemmas about the password loop\<close>

lemma try_passwords_frame:
  "try_passwords nm c res i pws cn pu h tr = (ro, cn', pu', h', tr') \<Longrightarrow> a \<noteq> c \<Longrightarrow>
   map_of h' a = map_of h a"
proof (induction pws arbitrary: i h tr)
  case Nil
  then show ?case by simp
next
  case (Cons pw pws)
  then show ?case
    by (auto simp: Let_def map_of_dict_setitem split: sum.splits exn.splits)
qed

lemma attempt_config_last: "attempt_config (attempt_config D pw) = attempt_config D"
  by (rule ext) (simp add: attempt_config_def)


lemma try_passwords_opened:
  assumes "map (attempt_config (deref h c)) pws = pre @ cfg # post"
    and "all_rejected nm tr pre"
    and "ConnectHandler nm (tr @ map Connect pre) cfg = Inr c'"
  shows "\<exists>h'. try_passwords nm c res i pws cn pu h tr =
     (None, Some c', Some (if i + length pre = 0 then primary_label else backup_label), h',
      tr @ map Connect (pre @ [cfg]))"
  using assms
proof (induction pre arbitrary: pws i h tr)
  case Nil
  then obtain pw pws' where pws: "pws = pw # pws'" and cfg: "cfg = attempt_config (deref h c) pw"
    by (cases pws) auto
  with Nil show ?case
    by (simp add: Let_def deref_dict_setitem attempt_config_def)
next
  case (Cons p pre)
  then obtain pw pws' where pws: "pws = pw # pws'" and p: "p = attempt_config (deref h c) pw"
    and rest: "map (attempt_config (deref h c)) pws' = pre @ cfg # post"
    by (cases pws) auto
  let ?h = "dict_setitem h c ''password'' pw"
  have D: "deref ?h c = p"
    by (simp add: deref_dict_setitem attempt_config_def p)
  from Cons.prems(2) obtain m where
    m: "ConnectHandler nm tr p = Inl (NetMikoAuthenticationException m)"
    and rej: "all_rejected nm (tr @ [Connect p]) pre"
    by (auto split: sum.splits exn.splits)
  have "attempt_config (deref ?h c) = attempt_config (deref h c)"
    by (simp add: D p attempt_config_last)
  with rest have "map (attempt_config (deref ?h c)) pws' = pre @ cfg # post" by simp
  from Cons.IH [OF this rej, of "Suc i"] Cons.prems(3)
  obtain h' where "try_passwords nm c res (Suc i) pws' cn pu ?h (tr @ [Connect p]) =
     (None, Some c', Some backup_label, h', (tr @ [Connect p]) @ map Connect (pre @ [cfg]))"
    by auto
  with m D pws show ?case by (simp add: Let_def)
qed


text \<open>What the loop does in every case.\<close>

lemma try_passwords_invariant:
  "try_passwords nm c res i pws None None h tr = (ro, cn', pu', h', tr') \<Longrightarrow>
   \<exists>cfgs. tr' = tr @ map Connect cfgs \<and>
     opened_sessions nm tr (map Connect cfgs) = (case cn' of None \<Rightarrow> [] | Some c' \<Rightarrow> [c']) \<and>
     (cn' = None \<longrightarrow> pu' = None) \<and>
     (\<forall>r. ro = Some r \<longrightarrow> cn' = None \<and> (\<exists>txt. r = res\<lparr>output := txt, password_used := None\<rparr>))"
proof (induction pws arbitrary: i h tr)
  case Nil
  then show ?case by auto
next
  case (Cons pw pws)
  let ?h = "dict_setitem h c ''password'' pw"
  let ?cfg = "deref ?h c"
  show ?case
  proof (cases "ConnectHandler nm tr ?cfg")
    case (Inr c')
    with Cons.prems have "tr' = tr @ map Connect [?cfg]" "cn' = Some c'" "ro = None"
      by (auto simp: Let_def)
    with Inr show ?thesis by (intro exI [of _ "[?cfg]"]) simp
  next
    case (Inl e)
    show ?thesis
    proof (cases e)
      case (NetMikoAuthenticationException m)
      with Inl Cons.prems have
        "try_passwords nm c res (Suc i) pws None None ?h (tr @ [Connect ?cfg]) = (ro, cn', pu', h', tr')"
        by (simp add: Let_def)
      from Cons.IH [OF this] obtain cfgs where
        "tr' = (tr @ [Connect ?cfg]) @ map Connect cfgs"
        "opened_sessions nm (tr @ [Connect ?cfg]) (map Connect cfgs) =
           (case cn' of None \<Rightarrow> [] | Some c' \<Rightarrow> [c'])"
        "cn' = None \<longrightarrow> pu' = None"
        "\<forall>r. ro = Some r \<longrightarrow> cn' = None \<and> (\<exists>txt. r = res\<lparr>output := txt, password_used := None\<rparr>)"
        by blast
      with Inl NetMikoAuthenticationException show ?thesis
        by (intro exI [of _ "?cfg # cfgs"]) simp
    next
      case (NetMikoTimeoutException m)
      with Inl Cons.prems have "tr' = tr @ map Connect [?cfg]" "cn' = None" "pu' = None"
        "ro = Some (res\<lparr>output := timeout_text, password_used := None\<rparr>)"
        by (auto simp: Let_def)
      with Inl show ?thesis by (intro exI [of _ "[?cfg]"]) auto
    next
      case (OtherException m)
      with Inl Cons.prems have "tr' = tr @ map Connect [?cfg]" "cn' = None" "pu' = None"
        "ro = Some (res\<lparr>output := error_prefix @ m, password_used := None\<rparr>)"
        by (auto simp: Let_def)
      with Inl show ?thesis by (intro exI [of _ "[?cfg]"]) auto
    qed
  qed
qed

section \<open>Lemmas about traces\<close>

lemma opened_sessions_append:
  "opened_sessions nm tr (es @ es') = opened_sessions nm tr es @ opened_sessions nm (tr @ es) es'"
  by (induction nm tr es rule: opened_sessions.induct) simp_all

lemma closed_sessions_append:
  "closed_sessions (es @ es') = closed_sessions es @ closed_sessions es'"
  by (induction es rule: closed_sessions.induct) simp_all

lemma closed_sessions_Connect: "closed_sessions (map Connect cfgs) = []"
  by (induction cfgs) simp_all

lemma closed_sessions_Send: "closed_sessions (map (SendCommandTiming c) cmds) = []"
  by (induction cmds) simp_all

lemma opened_sessions_Send: "opened_sessions nm tr (map (SendCommandTiming c) cmds) = []"
  by (induction cmds arbitrary: tr) simp_all

lemma reported_prompt_Connect:
  "reported_prompt nm tr (map Connect cfgs @ es) = reported_prompt nm (tr @ map Connect cfgs) es"
  by (induction cfgs arbitrary: tr) simp_all

section \<open>Lemmas about command execution\<close>

lemma run_commands_eq:
  "run_commands nm c cmds out tr =
     (out @ concat (command_entries nm c tr cmds), tr @ map (SendCommandTiming c) cmds)"
  by (induction cmds arbitrary: out tr) (simp_all add: Let_def split: sum.splits)


lemma execute_cases:
  assumes "execute nm sc c pu res dev tr = (r, tr5)"
  shows "(\<exists>cmds. resolved_commands sc dev = Inr cmds \<and>
            (\<exists>p. find_prompt nm tr c = Inr p) \<and>
            status r = ''success'' \<and>
            output r = concat (command_entries nm c (tr @ [FindPrompt c]) cmds) \<and>
            tr5 = tr @ FindPrompt c # map (SendCommandTiming c) cmds) \<or>
         (status r = status res \<and> tr5 = tr @ [FindPrompt c])"
  using assms
  by (auto simp: execute_def Let_def resolved_commands_def run_commands_eq
      split: sum.splits)

lemma execute_fields:
  assumes "execute nm sc c pu res dev tr = (r, tr5)"
  shows "password_used r = pu" and "ip_address r = ip_address res"
    and "device_type r = device_type res"
    and "hostname r = (case find_prompt nm tr c of
           Inr p \<Rightarrow> PStr (rstrip p ''#>$ '') | Inl e \<Rightarrow> hostname res)"
  using assms
  by (auto simp: execute_def Let_def run_commands_eq split: sum.splits)

section \<open>Lemmas about one device\<close>

lemma deref_copy_device: "deref (snd (dict_copy h d)) d = deref h d"
  by (simp add: dict_copy_def Let_def deref_def update_conv')

lemma inspect_device_eq:
  "inspect_device nm sc d h tr =
    (case try_passwords nm (fresh h) (initial_result (deref h d)) 0
            (candidate_passwords (deref h d)) None None (prepared_heap h d) tr of
       (Some r, cn, pu, h4, tr4) \<Rightarrow> (r, h4, tr4)
     | (None, None, pu, h4, tr4) \<Rightarrow>
         ((initial_result (deref h d))\<lparr>output := auth_exhausted_text, password_used := pu\<rparr>,
          h4, tr4)
     | (None, Some c, pu, h4, tr4) \<Rightarrow>
         (let (r, tr5) = execute nm sc c pu (initial_result (deref h d)) (deref h4 d) tr4
          in (r, h4, tr5 @ [Disconnect c])))"
proof -
  obtain c h1 where dc: "dict_copy h d = (c, h1)"
    by (cases "dict_copy h d")
  have c: "c = fresh h"
    using fst_dict_copy [of h d] dc by simp
  have h1: "deref h1 d = deref h d"
    using deref_copy_device [of h d] dc by simp
  show ?thesis
    unfolding inspect_device_def Let_def prepared_heap_def initial_result_def dc
    by (simp add: c h1)
qed

lemma deref_prepared_heap:
  "deref (prepared_heap h d) (fresh h) =
     AList.delete ''commands'' (AList.delete ''backup_password'' (deref h d))"
  using deref_dict_copy [of h d]
  by (simp add: prepared_heap_def deref_dict_pop fst_dict_copy)

lemma map_of_prepared_heap: "a \<noteq> fresh h \<Longrightarrow> map_of (prepared_heap h d) a = map_of h a"
  by (simp add: prepared_heap_def map_of_dict_pop map_of_dict_copy)

lemma candidate_configs_eq:
  "map (attempt_config (deref (prepared_heap h d) (fresh h))) (candidate_passwords (deref h d)) =
     candidate_configs (deref h d)"
  by (simp add: candidate_configs_def deref_prepared_heap)

lemma inspect_device_frame:
  assumes "inspect_device nm sc d h tr = (r, h', tr')" and "map_of h a = Some x"
  shows "map_of h' a = Some x"
proof -
  obtain ro cn pu h4 tr4 where
    tp: "try_passwords nm (fresh h) (initial_result (deref h d)) 0
           (candidate_passwords (deref h d)) None None (prepared_heap h d) tr =
         (ro, cn, pu, h4, tr4)"
    by (metis prod_cases5)
  have a: "a \<noteq> fresh h" using assms(2) by (rule live_not_fresh)
  have "map_of h4 a = map_of h a"
    using try_passwords_frame [OF tp a] map_of_prepared_heap [OF a] by simp
  moreover have "h' = h4"
    using assms(1) tp
    by (auto simp: inspect_device_eq Let_def split: option.splits prod.splits)
  ultimately show ?thesis using assms(2) by simp
qed

lemma candidate_configs_primary:
  "\<exists>rest. candidate_configs device = primary_config device # rest"
  by (simp add: candidate_configs_def candidate_passwords_def primary_config_def)

lemma connect_attempts_append:
  "connect_attempts (es @ es') = connect_attempts es @ connect_attempts es'"
  by (induction es rule: connect_attempts.induct) simp_all

lemma connect_attempts_Connect: "connect_attempts (map Connect cfgs) = cfgs"
  by (induction cfgs) simp_all

lemma connect_attempts_Send: "connect_attempts (map (SendCommandTiming c) cmds) = []"
  by (induction cmds) simp_all

lemma execute_trace:
  assumes "execute nm sc c pu res dev tr = (r, tr5)"
  shows "\<exists>cmds. tr5 = tr @ FindPrompt c # map (SendCommandTiming c) cmds"
  using execute_cases [OF assms] by (auto intro: exI [of _ "[]"])

text \<open>The two ways one inspection can go: no session, or one session.\<close>

lemma inspect_device_shape:
  assumes "inspect_device nm sc d h tr = (r, h', tr')"
  shows "\<exists>cfgs.
     (opened_sessions nm tr (map Connect cfgs) = [] \<and> tr' = tr @ map Connect cfgs \<and>
      (\<exists>txt. r = (initial_result (deref h d))\<lparr>output := txt, password_used := None\<rparr>)) \<or>
     (\<exists>c pu tr5. opened_sessions nm tr (map Connect cfgs) = [c] \<and>
        execute nm sc c pu (initial_result (deref h d)) (deref h' d) (tr @ map Connect cfgs) =
          (r, tr5) \<and>
        tr' = tr5 @ [Disconnect c])"
proof -
  obtain ro cn pu h4 tr4 where
    tp: "try_passwords nm (fresh h) (initial_result (deref h d)) 0
           (candidate_passwords (deref h d)) None None (prepared_heap h d) tr =
         (ro, cn, pu, h4, tr4)"
    by (metis prod_cases5)
  from try_passwords_invariant [OF tp] obtain cfgs where
    tr4: "tr4 = tr @ map Connect cfgs"
    and op: "opened_sessions nm tr (map Connect cfgs) = (case cn of None \<Rightarrow> [] | Some c' \<Rightarrow> [c'])"
    and pu: "cn = None \<longrightarrow> pu = None"
    and ro: "\<forall>r. ro = Some r \<longrightarrow> cn = None \<and>
               (\<exists>txt. r = (initial_result (deref h d))\<lparr>output := txt, password_used := None\<rparr>)"
    by blast
  show ?thesis
  proof (cases ro)
    case (Some r1)
    with ro have "cn = None" by simp
    with assms tp Some ro op tr4 show ?thesis
      by (intro exI [of _ cfgs]) (auto simp: inspect_device_eq)
  next
    case None
    show ?thesis
    proof (cases cn)
      case cn: None
      with pu have "pu = None" by simp
      with assms tp None cn op tr4 show ?thesis
        by (intro exI [of _ cfgs]) (auto simp: inspect_device_eq)
    next
      case (Some c)
      obtain r0 tr5 where
        ex: "execute nm sc c pu (initial_result (deref h d)) (deref h4 d) tr4 = (r0, tr5)"
        by (cases "execute nm sc c pu (initial_result (deref h d)) (deref h4 d) tr4")
      with assms tp None Some have "r = r0" "h' = h4" "tr' = tr5 @ [Disconnect c]"
        by (auto simp: inspect_device_eq)
      with ex op Some tr4 show ?thesis
        by (intro exI [of _ cfgs]) auto
    qed
  qed
qed



lemma rstrip_decomposition:
  "\<exists>t. s = rstrip s chars @ t \<and> set t \<subseteq> set chars"
proof -
  let ?P = "\<lambda>c. c \<in> set chars"
  have "rev s = takeWhile ?P (rev s) @ dropWhile ?P (rev s)" by simp
  then have "s = rev (dropWhile ?P (rev s)) @ rev (takeWhile ?P (rev s))"
    by (metis rev_append rev_rev_ident)
  moreover have "set (rev (takeWhile ?P (rev s))) \<subseteq> set chars"
    by (auto dest: set_takeWhileD)
  ultimately show ?thesis unfolding rstrip_def by blast
qed

lemma rstrip_last: "rstrip s chars = [] \<or> last (rstrip s chars) \<notin> set chars"
proof (cases "dropWhile (\<lambda>c. c \<in> set chars) (rev s)")
  case Nil
  then show ?thesis by (simp add: rstrip_def)
next
  case (Cons x xs)
  then have "x \<notin> set chars"
    by (metis (mono_tags, lifting) hd_dropWhile list.sel(1) list.distinct(1))
  with Cons show ?thesis by (simp add: rstrip_def)
qed

lemma inspect_device_address:
  assumes "inspect_device nm sc d h tr = (r, h', tr')"
  shows "ip_address r = dict_get (deref h d) ''host'' \<and>
         device_type r = dict_get (deref h d) ''device_type''"
proof -
  from inspect_device_shape [OF assms] obtain cfgs where
    "(opened_sessions nm tr (map Connect cfgs) = [] \<and> tr' = tr @ map Connect cfgs \<and>
      (\<exists>msg. r = (initial_result (deref h d))\<lparr>output := msg, password_used := None\<rparr>)) \<or>
     (\<exists>c pu tr5. opened_sessions nm tr (map Connect cfgs) = [c] \<and>
        execute nm sc c pu (initial_result (deref h d)) (deref h' d) (tr @ map Connect cfgs) =
          (r, tr5) \<and>
        tr' = tr5 @ [Disconnect c])"
    by blast
  then show ?thesis
    by (auto simp: initial_result_def dest: execute_fields(2,3))
qed

lemma concat_utf8_chars: "concat (utf8_chars s) = s"
  by (induction s rule: utf8_chars.induct) simp_all

lemma utf8_chars_ascii:
  "\<forall>c\<in>set s. \<not> is_continuation c \<Longrightarrow> utf8_chars s = map (\<lambda>c. [c]) s"
proof (induction s)
  case Nil
  then show ?case by simp
next
  case (Cons c cs)
  then have "takeWhile is_continuation cs = []" "dropWhile is_continuation cs = cs"
    by (cases cs; simp)+
  with Cons show ?case by simp
qed



section \<open>Lemmas about all devices\<close>

lemma run_inspection_loop_results:
  assumes "run_inspection_loop nm sc devs rs0 h tr = (rs, h', tr')"
    and "\<forall>d\<in>set devs. map_of h d \<noteq> None"
  shows "\<exists>rs1. rs = rs0 @ rs1 \<and> length rs1 = length devs \<and>
     (\<forall>i<length devs.
        (\<exists>hi tri. rs1 ! i = fst (inspect_device nm sc (devs ! i) hi tri) \<and>
           deref hi (devs ! i) = deref h (devs ! i)) \<and>
        ip_address (rs1 ! i) = dict_get (deref h (devs ! i)) ''host'' \<and>
        device_type (rs1 ! i) = dict_get (deref h (devs ! i)) ''device_type'')"
  using assms
proof (induction devs arbitrary: rs0 h tr)
  case Nil
  then show ?case by simp
next
  case (Cons d devs)
  obtain r h1 tr1 where ins: "inspect_device nm sc d h tr = (r, h1, tr1)"
    by (cases "inspect_device nm sc d h tr")
  with Cons.prems(1) have
    loop: "run_inspection_loop nm sc devs (rs0 @ [r]) h1 tr1 = (rs, h', tr')"
    by simp
  have keep: "map_of h1 a = Some x" if "map_of h a = Some x" for a x
    using inspect_device_frame [OF ins that] .
  have same: "deref h1 a = deref h a" if "map_of h a \<noteq> None" for a
    using that keep [of a] by (auto simp: deref_def)
  have "\<forall>d\<in>set devs. map_of h1 d \<noteq> None"
    using Cons.prems(2) keep by fastforce
  from Cons.IH [OF loop this] obtain rs1 where
    rs: "rs = (rs0 @ [r]) @ rs1" and len: "length rs1 = length devs"
    and each: "\<forall>i<length devs.
        (\<exists>hi tri. rs1 ! i = fst (inspect_device nm sc (devs ! i) hi tri) \<and>
           deref hi (devs ! i) = deref h1 (devs ! i)) \<and>
        ip_address (rs1 ! i) = dict_get (deref h1 (devs ! i)) ''host'' \<and>
        device_type (rs1 ! i) = dict_get (deref h1 (devs ! i)) ''device_type''"
    by blast
  have "\<forall>i<length (d # devs).
        (\<exists>hi tri. (r # rs1) ! i = fst (inspect_device nm sc ((d # devs) ! i) hi tri) \<and>
           deref hi ((d # devs) ! i) = deref h ((d # devs) ! i)) \<and>
        ip_address ((r # rs1) ! i) = dict_get (deref h ((d # devs) ! i)) ''host'' \<and>
        device_type ((r # rs1) ! i) = dict_get (deref h ((d # devs) ! i)) ''device_type''"
  proof (intro allI impI)
    fix i
    assume i: "i < length (d # devs)"
    show "(\<exists>hi tri. (r # rs1) ! i = fst (inspect_device nm sc ((d # devs) ! i) hi tri) \<and>
           deref hi ((d # devs) ! i) = deref h ((d # devs) ! i)) \<and>
        ip_address ((r # rs1) ! i) = dict_get (deref h ((d # devs) ! i)) ''host'' \<and>
        device_type ((r # rs1) ! i) = dict_get (deref h ((d # devs) ! i)) ''device_type''"
    proof (cases i)
      case 0
      have "r = fst (inspect_device nm sc d h tr)" using ins by simp
      with 0 inspect_device_address [OF ins] show ?thesis by auto
    next
      case (Suc j)
      with i have j: "j < length devs" by simp
      then have "map_of h (devs ! j) \<noteq> None" using Cons.prems(2) by simp
      then have eq: "deref h1 (devs ! j) = deref h (devs ! j)" by (rule same)
      from each j obtain hi tri where
        "rs1 ! j = fst (inspect_device nm sc (devs ! j) hi tri)"
        "deref hi (devs ! j) = deref h1 (devs ! j)"
        "ip_address (rs1 ! j) = dict_get (deref h1 (devs ! j)) ''host''"
        "device_type (rs1 ! j) = dict_get (deref h1 (devs ! j)) ''device_type''"
        by blast
      with eq Suc show ?thesis by auto
    qed
  qed
  with rs len show ?case
    by (intro exI [of _ "r # rs1"]) simp
qed

section \<open>The claims\<close>

text \<open>
  C1. \<open>run_inspection\<close> returns one result per device, in the order of the devices,
  whatever the provider answers: the result at each position is what
  \<open>inspect_device\<close> returns for the device at that position, and carries that
  device's \<open>host\<close> and \<open>device_type\<close>.
\<close>

theorem one_result_per_device_in_order:
  assumes "run_inspection nm sc devs h tr = (rs, h', tr')"
    and "\<forall>d\<in>set devs. map_of h d \<noteq> None"
  shows "length rs = length devs \<and>
     (\<forall>i<length devs.
        (\<exists>hi tri. rs ! i = fst (inspect_device nm sc (devs ! i) hi tri) \<and>
           deref hi (devs ! i) = deref h (devs ! i)) \<and>
        ip_address (rs ! i) = dict_get (deref h (devs ! i)) ''host'' \<and>
        device_type (rs ! i) = dict_get (deref h (devs ! i)) ''device_type'')"
  using run_inspection_loop_results [of nm sc devs "[]" h tr rs h' tr'] assms
  by (simp add: run_inspection_def)

text \<open>The theorem of C1 at a concrete device and provider.\<close>

theorem one_result_per_device_in_order_witness:
  "map_of example_heap 1 = Some example_device \<and>
   map_of example_heap 2 = Some backup_device \<and>
   length (fst (run_inspection timeout_provider [] [1, 2] example_heap [])) = 2 \<and>
   ip_address (fst (run_inspection timeout_provider [] [1, 2] example_heap []) ! 0) =
     PStr ''10.0.0.1'' \<and>
   ip_address (fst (run_inspection timeout_provider [] [1, 2] example_heap []) ! 1) =
     PStr ''10.0.0.2''"
proof -
  let ?X = "run_inspection timeout_provider [] [1, 2] example_heap []"
  have live: "\<forall>d\<in>set [1, 2]. map_of example_heap d \<noteq> None"
    by (simp add: example_heap_def)
  have "?X = (fst ?X, fst (snd ?X), snd (snd ?X))" by simp
  from one_result_per_device_in_order [OF this live]
  have len: "length (fst ?X) = 2"
    and each: "\<And>i. i < 2 \<Longrightarrow>
      ip_address (fst ?X ! i) = dict_get (deref example_heap ([1, 2] ! i)) ''host''"
    by simp_all
  have "dict_get (deref example_heap 1) ''host'' = PStr ''10.0.0.1''"
    and "dict_get (deref example_heap 2) ''host'' = PStr ''10.0.0.2''"
    by code_simp+
  with len each [of 0] each [of 1] show ?thesis
    by (simp add: example_heap_def)
qed

text \<open>
  C2. If the provider opens a session at the first attempt (the primary password), the
  result's \<open>password_used\<close> is the primary label and the provider's
  \<open>ConnectHandler\<close> is called exactly once during the inspection: the backup
  password is never tried.
\<close>

theorem primary_success_skips_backup:
  assumes "inspect_device nm sc d h tr = (r, h', tr')"
    and "ConnectHandler nm tr (primary_config (deref h d)) = Inr c"
  shows "password_used r = Some primary_label \<and>
         connect_attempts (drop (length tr) tr') = [primary_config (deref h d)]"
proof -
  let ?res = "initial_result (deref h d)"
  let ?cfg = "primary_config (deref h d)"
  obtain rest where "candidate_configs (deref h d) = ?cfg # rest"
    using candidate_configs_primary by blast
  then have split:
    "map (attempt_config (deref (prepared_heap h d) (fresh h))) (candidate_passwords (deref h d)) =
       [] @ ?cfg # rest"
    by (simp add: candidate_configs_eq)
  have "all_rejected nm tr []" by simp
  from try_passwords_opened [OF split this, of c ?res 0 None None] assms(2)
  obtain h4 where tp:
    "try_passwords nm (fresh h) ?res 0 (candidate_passwords (deref h d)) None None
       (prepared_heap h d) tr = (None, Some c, Some primary_label, h4, tr @ [Connect ?cfg])"
    by auto
  obtain r0 tr5 where
    ex: "execute nm sc c (Some primary_label) ?res (deref h4 d) (tr @ [Connect ?cfg]) = (r0, tr5)"
    by (cases "execute nm sc c (Some primary_label) ?res (deref h4 d) (tr @ [Connect ?cfg])")
  with assms(1) tp have r: "r = r0" and tr': "tr' = tr5 @ [Disconnect c]"
    by (auto simp: inspect_device_eq)
  from execute_trace [OF ex] obtain cmds where
    "tr5 = (tr @ [Connect ?cfg]) @ FindPrompt c # map (SendCommandTiming c) cmds"
    by blast
  with tr' have "drop (length tr) tr' =
      Connect ?cfg # FindPrompt c # map (SendCommandTiming c) cmds @ [Disconnect c]"
    by simp
  then have "connect_attempts (drop (length tr) tr') = [?cfg]"
    by (simp add: connect_attempts_append connect_attempts_Send)
  with execute_fields(1) [OF ex] r show ?thesis by simp
qed

text \<open>The theorem of C2 at a concrete device and provider.\<close>

theorem primary_success_skips_backup_witness:
  "ConnectHandler accepting_provider [] (primary_config (deref example_heap 2)) = Inr 7 \<and>
   password_used (fst (inspect_device accepting_provider [] 2 example_heap [])) =
     Some primary_label \<and>
   connect_attempts
     (drop (length []) (snd (snd (inspect_device accepting_provider [] 2 example_heap [])))) =
     [primary_config (deref example_heap 2)]"
proof -
  let ?X = "inspect_device accepting_provider [] 2 example_heap []"
  have ok: "ConnectHandler accepting_provider [] (primary_config (deref example_heap 2)) = Inr 7"
    by (simp add: accepting_provider_def)
  have "?X = (fst ?X, fst (snd ?X), snd (snd ?X))" by simp
  from primary_success_skips_backup [OF this ok] ok show ?thesis by simp
qed





text \<open>
  C5, as amended. When no attempt of an inspection opens a session, the result's
  \<open>password_used\<close> is None and the status is \<open>failed\<close>.
\<close>

theorem failed_negotiation_reports_no_password:
  assumes "inspect_device nm sc d h tr = (r, h', tr')"
    and "opened_sessions nm tr (drop (length tr) tr') = []"
  shows "password_used r = None \<and> status r = ''failed''"
proof -
  from inspect_device_shape [OF assms(1)] obtain cfgs where
    "(opened_sessions nm tr (map Connect cfgs) = [] \<and> tr' = tr @ map Connect cfgs \<and>
      (\<exists>txt. r = (initial_result (deref h d))\<lparr>output := txt, password_used := None\<rparr>)) \<or>
     (\<exists>c pu tr5. opened_sessions nm tr (map Connect cfgs) = [c] \<and>
        execute nm sc c pu (initial_result (deref h d)) (deref h' d) (tr @ map Connect cfgs) =
          (r, tr5) \<and>
        tr' = tr5 @ [Disconnect c])"
    by blast
  then show ?thesis
  proof
    assume "opened_sessions nm tr (map Connect cfgs) = [] \<and> tr' = tr @ map Connect cfgs \<and>
      (\<exists>txt. r = (initial_result (deref h d))\<lparr>output := txt, password_used := None\<rparr>)"
    then show ?thesis by (auto simp: initial_result_def)
  next
    assume "\<exists>c pu tr5. opened_sessions nm tr (map Connect cfgs) = [c] \<and>
        execute nm sc c pu (initial_result (deref h d)) (deref h' d) (tr @ map Connect cfgs) =
          (r, tr5) \<and>
        tr' = tr5 @ [Disconnect c]"
    then obtain c pu tr5 where op: "opened_sessions nm tr (map Connect cfgs) = [c]"
      and ex: "execute nm sc c pu (initial_result (deref h d)) (deref h' d)
                 (tr @ map Connect cfgs) = (r, tr5)"
      and tr': "tr' = tr5 @ [Disconnect c]"
      by blast
    from execute_trace [OF ex] obtain cmds where
      "tr5 = (tr @ map Connect cfgs) @ FindPrompt c # map (SendCommandTiming c) cmds"
      by blast
    with tr' have "drop (length tr) tr' =
        map Connect cfgs @ (FindPrompt c # map (SendCommandTiming c) cmds @ [Disconnect c])"
      by simp
    with op have "opened_sessions nm tr (drop (length tr) tr') \<noteq> []"
      by (simp add: opened_sessions_append)
    with assms(2) show ?thesis by simp
  qed
qed

text \<open>
  C5, as stated, fails. With a device that has no backup password and a provider that
  rejects the primary password, one candidate was attempted, so the last attempted
  rank is the primary one; the result's \<open>password_used\<close> is None.
\<close>

theorem rank_is_last_attempted_counterexample:
  "status (fst (inspect_device rejecting_provider [] 1 example_heap [])) = ''failed'' \<and>
   output (fst (inspect_device rejecting_provider [] 1 example_heap [])) = auth_exhausted_text \<and>
   last_attempted_rank (device_events rejecting_provider [] 1 example_heap []) =
     Some primary_label \<and>
   password_used (fst (inspect_device rejecting_provider [] 1 example_heap [])) \<noteq>
     last_attempted_rank (device_events rejecting_provider [] 1 example_heap [])"
  by code_simp

text \<open>The theorem of C5 at a concrete device and provider.\<close>

theorem failed_negotiation_reports_no_password_witness:
  "opened_sessions rejecting_provider []
     (drop (length []) (snd (snd (inspect_device rejecting_provider [] 2 example_heap [])))) = [] \<and>
   password_used (fst (inspect_device rejecting_provider [] 2 example_heap [])) = None \<and>
   status (fst (inspect_device rejecting_provider [] 2 example_heap [])) = ''failed''"
proof -
  let ?X = "inspect_device rejecting_provider [] 2 example_heap []"
  have none: "opened_sessions rejecting_provider [] (drop (length []) (snd (snd ?X))) = []"
    by code_simp
  have "?X = (fst ?X, fst (snd ?X), snd (snd ?X))" by simp
  from failed_negotiation_reports_no_password [OF this none] none show ?thesis by simp
qed

text \<open>
  C6. Command resolution follows the four-level precedence. \<open>spec_resolve\<close> writes
  the precedence out: the device's own \<open>commands\<close> when present and not empty, else
  the external command set under the device's platform, else the built-in set for the
  platform, else the single command \<open>show version\<close>. For a device whose
  \<open>device_type\<close> is not a list (a list cannot be a dict key), or that has its own
  commands, \<open>_get_inspection_commands\<close> returns exactly that.
\<close>

theorem resolution_follows_precedence:
  assumes "has_override device \<or> (\<forall>xs. dict_get device ''device_type'' \<noteq> PList xs)"
  shows "get_inspection_commands sc device = Inr (spec_resolve sc device)"
proof (cases "has_override device")
  case True
  then show ?thesis
    by (simp add: get_inspection_commands_def spec_resolve_def has_override_def)
next
  case False
  with assms have nl: "\<forall>xs. dict_get device ''device_type'' \<noteq> PList xs" by simp
  have sc: "sc = [] \<Longrightarrow> map_of sc p = None" for p by simp
  from False nl show ?thesis
    by (cases "dict_get device ''device_type''")
      (auto simp: get_inspection_commands_def spec_resolve_def has_override_def
        platform_key_def Let_def split: option.splits)
qed

text \<open>The theorem of C6 at a concrete device and provider.\<close>

theorem resolution_follows_precedence_witness:
  "(has_override override_device \<or>
      (\<forall>xs. dict_get override_device ''device_type'' \<noteq> PList xs)) \<and>
   map_of external_commands ''cisco_ios'' = Some (PList [''cmdB'']) \<and>
   map_of commands_map ''cisco_ios'' \<noteq> None \<and>
   get_inspection_commands external_commands override_device = Inr (PList [''cmdA''])"
proof -
  have ov: "has_override override_device \<or>
      (\<forall>xs. dict_get override_device ''device_type'' \<noteq> PList xs)"
    by (simp add: has_override_def override_device_def)
  have ext: "map_of external_commands ''cisco_ios'' = Some (PList [''cmdB''])"
    by (simp add: external_commands_def)
  have builtin: "map_of commands_map ''cisco_ios'' \<noteq> None"
    by (simp add: commands_map_def)
  have "spec_resolve external_commands override_device = PList [''cmdA'']"
    by code_simp
  with resolution_follows_precedence [OF ov, of external_commands] ov ext builtin
  show ?thesis by simp
qed



text \<open>
  C8. In the events of one inspection, the sessions that are closed are exactly the
  sessions the provider opened, each once, and there is at most one: a session that
  was opened is closed once on every path, and nothing is closed when no session was
  opened.
\<close>

theorem session_closed_exactly_once:
  "closed_sessions (device_events nm sc d h tr) =
     opened_sessions nm tr (device_events nm sc d h tr) \<and>
   length (opened_sessions nm tr (device_events nm sc d h tr)) \<le> 1"
proof -
  obtain r h' tr' where ins: "inspect_device nm sc d h tr = (r, h', tr')"
    by (cases "inspect_device nm sc d h tr")
  then have ev: "device_events nm sc d h tr = drop (length tr) tr'"
    by (simp add: device_events_def)
  from inspect_device_shape [OF ins] obtain cfgs where
    "(opened_sessions nm tr (map Connect cfgs) = [] \<and> tr' = tr @ map Connect cfgs \<and>
      (\<exists>msg. r = (initial_result (deref h d))\<lparr>output := msg, password_used := None\<rparr>)) \<or>
     (\<exists>c pu tr5. opened_sessions nm tr (map Connect cfgs) = [c] \<and>
        execute nm sc c pu (initial_result (deref h d)) (deref h' d) (tr @ map Connect cfgs) =
          (r, tr5) \<and>
        tr' = tr5 @ [Disconnect c])"
    by blast
  then show ?thesis
  proof
    assume "opened_sessions nm tr (map Connect cfgs) = [] \<and> tr' = tr @ map Connect cfgs \<and>
      (\<exists>msg. r = (initial_result (deref h d))\<lparr>output := msg, password_used := None\<rparr>)"
    with ev show ?thesis by (simp add: closed_sessions_Connect)
  next
    assume "\<exists>c pu tr5. opened_sessions nm tr (map Connect cfgs) = [c] \<and>
        execute nm sc c pu (initial_result (deref h d)) (deref h' d) (tr @ map Connect cfgs) =
          (r, tr5) \<and>
        tr' = tr5 @ [Disconnect c]"
    then obtain c pu tr5 where op: "opened_sessions nm tr (map Connect cfgs) = [c]"
      and ex: "execute nm sc c pu (initial_result (deref h d)) (deref h' d)
                 (tr @ map Connect cfgs) = (r, tr5)"
      and tr': "tr' = tr5 @ [Disconnect c]"
      by blast
    from execute_trace [OF ex] obtain cmds where
      "tr5 = (tr @ map Connect cfgs) @ FindPrompt c # map (SendCommandTiming c) cmds"
      by blast
    with tr' ev have "device_events nm sc d h tr =
        map Connect cfgs @ (FindPrompt c # map (SendCommandTiming c) cmds @ [Disconnect c])"
      by simp
    with op show ?thesis
      by (simp add: opened_sessions_append closed_sessions_append closed_sessions_Connect
          closed_sessions_Send opened_sessions_Send)
  qed
qed

text \<open>The theorem of C8 at a concrete device and provider.\<close>

theorem session_closed_exactly_once_witness:
  "closed_sessions (device_events accepting_provider [] 2 example_heap []) = [7] \<and>
   opened_sessions accepting_provider [] (device_events accepting_provider [] 2 example_heap []) =
     [7] \<and>
   closed_sessions (device_events timeout_provider [] 2 example_heap []) = []"
proof -
  have "opened_sessions accepting_provider []
      (device_events accepting_provider [] 2 example_heap []) = [7]"
    by code_simp
  moreover have "opened_sessions timeout_provider []
      (device_events timeout_provider [] 2 example_heap []) = []"
    by code_simp
  ultimately show ?thesis
    using session_closed_exactly_once [of accepting_provider "[]" 2 example_heap "[]"]
      session_closed_exactly_once [of timeout_provider "[]" 2 example_heap "[]"]
    by simp
qed

text \<open>
  C9. The result's hostname is the prompt the session reported, without the trailing
  characters \<open>#\<close>, \<open>>\<close>, \<open>$\<close> and space, when a session was opened and
  \<open>find_prompt\<close> returned; otherwise it is the device's \<open>host\<close>. What \<open>rstrip\<close>
  removes is a suffix made of those characters only, and what it leaves does not end
  with one of them.
\<close>

theorem hostname_from_prompt_or_host:
  "hostname (fst (inspect_device nm sc d h tr)) =
     (case reported_prompt nm tr (device_events nm sc d h tr) of
        Some prompt \<Rightarrow> PStr (rstrip prompt ''#>$ '')
      | None \<Rightarrow> dict_get (deref h d) ''host'') \<and>
   (\<forall>prompt. (\<exists>t. prompt = rstrip prompt ''#>$ '' @ t \<and> set t \<subseteq> set ''#>$ '') \<and>
      (rstrip prompt ''#>$ '' = [] \<or> last (rstrip prompt ''#>$ '') \<notin> set ''#>$ ''))"
proof -
  obtain r h' tr' where ins: "inspect_device nm sc d h tr = (r, h', tr')"
    by (cases "inspect_device nm sc d h tr")
  then have ev: "device_events nm sc d h tr = drop (length tr) tr'"
    by (simp add: device_events_def)
  from inspect_device_shape [OF ins] obtain cfgs where
    "(opened_sessions nm tr (map Connect cfgs) = [] \<and> tr' = tr @ map Connect cfgs \<and>
      (\<exists>msg. r = (initial_result (deref h d))\<lparr>output := msg, password_used := None\<rparr>)) \<or>
     (\<exists>c pu tr5. opened_sessions nm tr (map Connect cfgs) = [c] \<and>
        execute nm sc c pu (initial_result (deref h d)) (deref h' d) (tr @ map Connect cfgs) =
          (r, tr5) \<and>
        tr' = tr5 @ [Disconnect c])"
    by blast
  then have host: "hostname r =
     (case reported_prompt nm tr (device_events nm sc d h tr) of
        Some prompt \<Rightarrow> PStr (rstrip prompt ''#>$ '')
      | None \<Rightarrow> dict_get (deref h d) ''host'')"
  proof
    assume a: "opened_sessions nm tr (map Connect cfgs) = [] \<and> tr' = tr @ map Connect cfgs \<and>
      (\<exists>msg. r = (initial_result (deref h d))\<lparr>output := msg, password_used := None\<rparr>)"
    have "reported_prompt nm tr (map Connect cfgs @ []) = None"
      by (simp only: reported_prompt_Connect reported_prompt.simps)
    with a ev show ?thesis by (auto simp: initial_result_def)
  next
    assume "\<exists>c pu tr5. opened_sessions nm tr (map Connect cfgs) = [c] \<and>
        execute nm sc c pu (initial_result (deref h d)) (deref h' d) (tr @ map Connect cfgs) =
          (r, tr5) \<and>
        tr' = tr5 @ [Disconnect c]"
    then obtain c pu tr5 where
      ex: "execute nm sc c pu (initial_result (deref h d)) (deref h' d)
                 (tr @ map Connect cfgs) = (r, tr5)"
      and tr': "tr' = tr5 @ [Disconnect c]"
      by blast
    from execute_trace [OF ex] obtain cmds where
      "tr5 = (tr @ map Connect cfgs) @ FindPrompt c # map (SendCommandTiming c) cmds"
      by blast
    with tr' ev have "device_events nm sc d h tr =
        map Connect cfgs @ (FindPrompt c # map (SendCommandTiming c) cmds @ [Disconnect c])"
      by simp
    then have "reported_prompt nm tr (device_events nm sc d h tr) =
        (case find_prompt nm (tr @ map Connect cfgs) c of
           Inr prompt \<Rightarrow> Some prompt | Inl e \<Rightarrow> None)"
      by (simp add: reported_prompt_Connect)
    with execute_fields(4) [OF ex] show ?thesis
      by (simp add: initial_result_def split: sum.splits)
  qed
  have strip: "\<forall>prompt. (\<exists>t. prompt = rstrip prompt ''#>$ '' @ t \<and> set t \<subseteq> set ''#>$ '') \<and>
      (rstrip prompt ''#>$ '' = [] \<or> last (rstrip prompt ''#>$ '') \<notin> set ''#>$ '')"
    by (intro allI conjI rstrip_decomposition rstrip_last)
  from ins have "fst (inspect_device nm sc d h tr) = r" by simp
  with host strip show ?thesis by (simp only: simp_thms)
qed

text \<open>The theorem of C9 at a concrete device and provider.\<close>

theorem hostname_from_prompt_or_host_witness:
  "hostname (fst (inspect_device accepting_provider [] 2 example_heap [])) = PStr ''sw1'' \<and>
   hostname (fst (inspect_device timeout_provider [] 2 example_heap [])) = PStr ''10.0.0.2''"
proof -
  have "reported_prompt accepting_provider []
      (device_events accepting_provider [] 2 example_heap []) = Some ''sw1# ''"
    by code_simp
  moreover have "rstrip ''sw1# '' ''#>$ '' = ''sw1''" by code_simp
  moreover have "reported_prompt timeout_provider []
      (device_events timeout_provider [] 2 example_heap []) = None"
    by code_simp
  moreover have "dict_get (deref example_heap 2) ''host'' = PStr ''10.0.0.2''" by code_simp
  ultimately show ?thesis
    using hostname_from_prompt_or_host [of accepting_provider "[]" 2 example_heap "[]"]
      hostname_from_prompt_or_host [of timeout_provider "[]" 2 example_heap "[]"]
    by simp
qed

text \<open>
  C10. \<open>inspect_device\<close> changes no dict that existed before the call: the device
  it is given, and every other object of the store, holds the same items afterwards.
  The password is set and the two keys are removed on the copy, a new object.
\<close>

theorem descriptor_not_mutated:
  assumes "inspect_device nm sc d h tr = (r, h', tr')"
    and "map_of h d = Some device"
  shows "map_of h' d = Some device \<and> (\<forall>a x. map_of h a = Some x \<longrightarrow> map_of h' a = Some x)"
  using assms inspect_device_frame by blast

text \<open>The theorem of C10 at a concrete device and provider.\<close>

theorem descriptor_not_mutated_witness:
  "map_of example_heap 2 = Some backup_device \<and>
   map_of (fst (snd (inspect_device accepting_provider [] 2 example_heap []))) 2 =
     Some backup_device \<and>
   deref (fst (snd (inspect_device accepting_provider [] 2 example_heap [])))
     (fresh example_heap) = primary_config backup_device"
proof -
  let ?X = "inspect_device accepting_provider [] 2 example_heap []"
  have live: "map_of example_heap 2 = Some backup_device"
    by (simp add: example_heap_def)
  have copy: "deref (fst (snd ?X)) (fresh example_heap) = primary_config backup_device"
    by code_simp
  have "?X = (fst ?X, fst (snd ?X), snd (snd ?X))" by simp
  from descriptor_not_mutated [OF this live] live copy show ?thesis by simp
qed

end
